theory Spec2Isabelle
  imports Main "HOL-Library.Word"
begin

section \<open>The account service of src/server.js\<close>

text \<open>
  The program is four Express handlers over one PostgreSQL table and the bcrypt
  library. A handler is modelled as a function of the store and of the fields it
  destructures from the request; it returns the response (status and JSON body) and,
  where its statement writes, the store after the statement.

  What the model fixes about the collaborators:
  \<^item> the table is the list of its rows in insertion order, with the next value of the
    sequence behind \<open>id SERIAL\<close>;
  \<^item> \<open>points INTEGER\<close> is a 32-bit signed value or NULL; an addition that leaves the
    32-bit range raises, as the store's \<open>integer\<close> type does;
  \<^item> \<open>id SERIAL\<close> is a 32-bit integer column fed by a sequence that starts at 1 and
    raises once 2147483647 has been handed out;
  \<^item> the \<open>userId\<close> and \<open>points\<close> of a request are integers of any size, or
    absent; the store refuses one outside the 32-bit range when it binds it to its
    parameter, and refuses a string that holds U+0000;
  \<^item> \<open>email\<close>, \<open>username\<close> and \<open>password\<close> of a request are a string or absent
    (\<open>undefined\<close> and \<open>null\<close>, which the driver both sends as NULL); a string is
    the list of the bytes of its UTF-8 encoding;
  \<^item> the column \<open>created_at\<close> is left out: the handlers never read it and never
    return it;
  \<^item> bcrypt's key derivation and its verification are parameters (\<open>kdf\<close>,
    \<open>verify\<close>), and the salt bcrypt draws is an argument of \<open>register\<close>;
  \<^item> a statement raises only for the reasons the schema gives (a constraint, a
    column's type); what \<open>login\<close> does when its query is rejected for any other
    reason is stated on \<open>login_settled\<close>.
\<close>

subsection \<open>JSON values, objects, responses\<close>

datatype json = JNull | JBool bool | JNum int | JStr string | JObj "(string \<times> json) list"

type_synonym object = "(string \<times> json) list"

text \<open>\<open>obj.k\<close>: \<open>undefined\<close> (here \<open>None\<close>) when the object has no such property.\<close>

definition property :: "object \<Rightarrow> string \<Rightarrow> json option" where
  "property obj k = map_of obj k"

text \<open>
  An object literal \<open>{k1: v1, ...}\<close> as \<open>res.json\<close> serialises it: a property whose
  value is \<open>undefined\<close> is dropped.
\<close>

definition object_literal :: "(string \<times> json option) list \<Rightarrow> json" where
  "object_literal kvs =
     JObj (concat (map (\<lambda>kv. case snd kv of None \<Rightarrow> [] | Some j \<Rightarrow> [(fst kv, j)]) kvs))"

text \<open>\<open>rows[0]\<close>: \<open>undefined\<close> on an empty array.\<close>

definition first_row :: "object list \<Rightarrow> json option" where
  "first_row rows = (case rows of [] \<Rightarrow> None | r # _ \<Rightarrow> Some (JObj r))"

record response =
  status :: nat
  body :: json

text \<open>\<open>res.status(c).json(b)\<close>; \<open>res.json(b)\<close> alone answers with status 200.\<close>

definition json_response :: "nat \<Rightarrow> json \<Rightarrow> response" where
  "json_response c b = \<lparr>status = c, body = b\<rparr>"

definition failure :: "string \<Rightarrow> json" where
  "failure m = object_literal [(''success'', Some (JBool False)), (''message'', Some (JStr m))]"

definition success_user :: "json option \<Rightarrow> json" where
  "success_user u = object_literal [(''success'', Some (JBool True)), (''user'', u)]"

text \<open>Whether a JSON value has a property named \<open>f\<close>, at any depth.\<close>

fun has_field :: "string \<Rightarrow> json \<Rightarrow> bool" where
  "has_field f (JObj kvs) = list_ex (\<lambda>kv. fst kv = f \<or> has_field f (snd kv)) kvs"
| "has_field f JNull = False"
| "has_field f (JBool b) = False"
| "has_field f (JNum n) = False"
| "has_field f (JStr s) = False"

subsection \<open>The messages of the source\<close>

text \<open>
  Line 63 and line 70 carry the same string literal, 25 Cyrillic characters and spaces
  (U+041D U+0435 U+0432 U+0435 U+0440 U+043D U+044B U+0439, U+0020,
  U+043B U+043E U+0433 U+0438 U+043D, U+0020, U+0438 U+043B U+0438, U+0020,
  U+043F U+0430 U+0440 U+043E U+043B U+044C); these are its 47 bytes in UTF-8.
\<close>

definition invalid_login_message :: string where
  "invalid_login_message =
     [CHR 0xD0, CHR 0x9D, CHR 0xD0, CHR 0xB5, CHR 0xD0, CHR 0xB2, CHR 0xD0, CHR 0xB5,
      CHR 0xD1, CHR 0x80, CHR 0xD0, CHR 0xBD, CHR 0xD1, CHR 0x8B, CHR 0xD0, CHR 0xB9,
      CHR 0x20,
      CHR 0xD0, CHR 0xBB, CHR 0xD0, CHR 0xBE, CHR 0xD0, CHR 0xB3, CHR 0xD0, CHR 0xB8,
      CHR 0xD0, CHR 0xBD,
      CHR 0x20,
      CHR 0xD0, CHR 0xB8, CHR 0xD0, CHR 0xBB, CHR 0xD0, CHR 0xB8,
      CHR 0x20,
      CHR 0xD0, CHR 0xBF, CHR 0xD0, CHR 0xB0, CHR 0xD1, CHR 0x80, CHR 0xD0, CHR 0xBE,
      CHR 0xD0, CHR 0xBB, CHR 0xD1, CHR 0x8C]"

text \<open>
  Line 99 and line 119: U+041F U+043E U+043B U+044C U+0437 U+043E U+0432 U+0430 U+0442
  U+0435 U+043B U+044C, U+0020, U+043D U+0435, U+0020, U+043D U+0430 U+0439 U+0434
  U+0435 U+043D; 42 bytes in UTF-8.
\<close>

definition user_not_found_message :: string where
  "user_not_found_message =
     [CHR 0xD0, CHR 0x9F, CHR 0xD0, CHR 0xBE, CHR 0xD0, CHR 0xBB, CHR 0xD1, CHR 0x8C,
      CHR 0xD0, CHR 0xB7, CHR 0xD0, CHR 0xBE, CHR 0xD0, CHR 0xB2, CHR 0xD0, CHR 0xB0,
      CHR 0xD1, CHR 0x82, CHR 0xD0, CHR 0xB5, CHR 0xD0, CHR 0xBB, CHR 0xD1, CHR 0x8C,
      CHR 0x20,
      CHR 0xD0, CHR 0xBD, CHR 0xD0, CHR 0xB5,
      CHR 0x20,
      CHR 0xD0, CHR 0xBD, CHR 0xD0, CHR 0xB0, CHR 0xD0, CHR 0xB9, CHR 0xD0, CHR 0xB4,
      CHR 0xD0, CHR 0xB5, CHR 0xD0, CHR 0xBD]"

subsection \<open>Exceptions and bcrypt\<close>

text \<open>A rejected promise carries an \<open>Error\<close>; the handlers read its \<open>message\<close>.\<close>

datatype js_error = Error (message: string)

record bcrypt =
  kdf :: "nat \<Rightarrow> string \<Rightarrow> string \<Rightarrow> string"
  verify :: "string \<Rightarrow> string \<Rightarrow> bool"

text \<open>
  \<open>bcrypt.hash(data, rounds)\<close> rejects when \<open>data\<close> is \<open>undefined\<close> or \<open>null\<close>;
  otherwise it derives the hash of \<open>data\<close> under a fresh salt.
\<close>

definition bcrypt_hash :: "bcrypt \<Rightarrow> string \<Rightarrow> string option \<Rightarrow> nat \<Rightarrow> js_error + string" where
  "bcrypt_hash bc salt data rounds =
     (case data of
        None \<Rightarrow> Inl (Error ''data and salt arguments required'')
      | Some d \<Rightarrow> Inr (kdf bc rounds salt d))"

text \<open>
  \<open>bcrypt.compare(data, hash)\<close> rejects when either argument is \<open>undefined\<close> or
  \<open>null\<close>, or when the hash is not a string; otherwise it resolves to the verdict.
\<close>

definition bcrypt_compare :: "bcrypt \<Rightarrow> string option \<Rightarrow> json option \<Rightarrow> js_error + bool" where
  "bcrypt_compare bc data h =
     (case data of
        None \<Rightarrow> Inl (Error ''data and hash arguments required'')
      | Some d \<Rightarrow>
          (case h of
             None \<Rightarrow> Inl (Error ''data and hash arguments required'')
           | Some JNull \<Rightarrow> Inl (Error ''data and hash arguments required'')
           | Some (JStr hs) \<Rightarrow> Inr (verify bc d hs)
           | Some _ \<Rightarrow> Inl (Error ''data must be a string or Buffer and hash must be a string'')))"

subsection \<open>The table \<open>users\<close>\<close>

type_synonym int4 = "32 word"

record user_row =
  user_id :: int
  email :: string
  username :: string
  password :: string
  points :: "int4 option"

record store =
  users :: "user_row list"
  users_id_seq :: int

text \<open>The table right after \<open>CREATE TABLE IF NOT EXISTS\<close> on a fresh database.\<close>

definition empty_store :: store where
  "empty_store = \<lparr>users = [], users_id_seq = 1\<rparr>"

text \<open>
  \<open>VARCHAR(n)\<close> counts characters: the bytes of a UTF-8 string that are not
  continuation bytes.
\<close>

definition pg_char_length :: "string \<Rightarrow> nat" where
  "pg_char_length s =
     length (filter (\<lambda>c. \<not> (0x80 \<le> (of_char c :: nat) \<and> (of_char c :: nat) < 0xC0)) s)"

text \<open>
  Storing into a \<open>VARCHAR(n)\<close> column: NULL stays NULL; a string of at most \<open>n\<close>
  characters is stored as it is; a longer one is cut to \<open>n\<close> characters when all the
  characters in excess are spaces, and raises otherwise.
\<close>

definition varchar :: "nat \<Rightarrow> string \<Rightarrow> string option \<Rightarrow> js_error + string option" where
  "varchar n ty v =
     (case v of
        None \<Rightarrow> Inr None
      | Some s \<Rightarrow>
          (let k = pg_char_length s - n in
           if k = 0 then Inr (Some s)
           else if list_all (\<lambda>c. c = CHR '' '') (drop (length s - k) s)
             then Inr (Some (take (length s - k) s))
           else Inl (Error (''value too long for type '' @ ty))))"

definition not_null_violation :: "string \<Rightarrow> js_error" where
  "not_null_violation col =
     Error (''null value in column \"'' @ col @ ''\" of relation \"users\" violates not-null constraint'')"

definition unique_violation :: "string \<Rightarrow> js_error" where
  "unique_violation idx =
     Error (''duplicate key value violates unique constraint \"'' @ idx @ ''\"'')"

text \<open>\<open>points + $1\<close> on \<open>integer\<close>: NULL when an operand is NULL, an error out of range.\<close>

definition int4pl :: "int4 option \<Rightarrow> int4 option \<Rightarrow> js_error + int4 option" where
  "int4pl a b =
     (case a of
        None \<Rightarrow> Inr None
      | Some x \<Rightarrow>
          (case b of
             None \<Rightarrow> Inr None
           | Some y \<Rightarrow>
               (if - 2147483648 \<le> sint x + sint y \<and> sint x + sint y \<le> 2147483647
                then Inr (Some (x + y))
                else Inl (Error ''integer out of range''))))"

definition json_int4 :: "int4 option \<Rightarrow> json" where
  "json_int4 p = (case p of None \<Rightarrow> JNull | Some x \<Rightarrow> JNum (sint x))"

text \<open>The three column lists of the statements: two \<open>RETURNING\<close> lists and \<open>*\<close>.\<close>

definition id_email_username_points :: "user_row \<Rightarrow> object" where
  "id_email_username_points r =
     [(''id'', JNum (user_id r)), (''email'', JStr (email r)),
      (''username'', JStr (username r)), (''points'', json_int4 (points r))]"

definition id_username_points :: "user_row \<Rightarrow> object" where
  "id_username_points r =
     [(''id'', JNum (user_id r)), (''username'', JStr (username r)),
      (''points'', json_int4 (points r))]"

definition all_columns :: "user_row \<Rightarrow> object" where
  "all_columns r =
     [(''id'', JNum (user_id r)), (''email'', JStr (email r)),
      (''username'', JStr (username r)), (''password'', JStr (password r)),
      (''points'', json_int4 (points r))]"

text \<open>
  What binding does to a parameter before the statement runs. A text parameter is
  refused when it holds U+0000, which the store's encoding has no place for; a
  parameter compared with or added to an \<open>INTEGER\<close> column is refused outside the
  32-bit range. \<open>undefined\<close> and \<open>null\<close> are bound as NULL. A statement whose
  parameter is refused does nothing.
\<close>

definition bind_text :: "string option \<Rightarrow> js_error + string option" where
  "bind_text v =
     (case v of
        None \<Rightarrow> Inr None
      | Some t \<Rightarrow>
          if CHR 0x00 \<in> set t
          then Inl (Error ''invalid byte sequence for encoding \"UTF8\": 0x00'')
          else Inr (Some t))"

definition int4_range :: "int \<Rightarrow> bool" where
  "int4_range i \<longleftrightarrow> - 2147483648 \<le> i \<and> i \<le> 2147483647"

fun decimal_nat :: "nat \<Rightarrow> string" where
  "decimal_nat n =
     (if n < 10 then [''0123456789'' ! n]
      else decimal_nat (n div 10) @ [''0123456789'' ! (n mod 10)])"

declare decimal_nat.simps [simp del]

definition decimal :: "int \<Rightarrow> string" where
  "decimal i = (if i < 0 then ''-'' @ decimal_nat (nat (- i)) else decimal_nat (nat i))"

definition bind_integer :: "int option \<Rightarrow> js_error + int option" where
  "bind_integer v =
     (case v of
        None \<Rightarrow> Inr None
      | Some i \<Rightarrow>
          if int4_range i then Inr (Some i)
          else Inl (Error (''value \"'' @ decimal i @ ''\" is out of range for type integer'')))"

text \<open>
  The three values of \<open>INSERT INTO users (email, username, password) VALUES ($1, $2,
  $3)\<close> as the statement receives them: bound, then coerced to their columns. An
  error here comes before the sequence is asked for a value.
\<close>

definition insert_values :: "string option \<Rightarrow> string option \<Rightarrow> string option \<Rightarrow> js_error + (string option \<times> string option \<times> string option)" where
  "insert_values e u p =
     (case bind_text e of
        Inl err \<Rightarrow> Inl err
      | Inr e0 \<Rightarrow>
     (case bind_text u of
        Inl err \<Rightarrow> Inl err
      | Inr u0 \<Rightarrow>
     (case bind_text p of
        Inl err \<Rightarrow> Inl err
      | Inr p0 \<Rightarrow>
     (case varchar 255 ''character varying(255)'' e0 of
        Inl err \<Rightarrow> Inl err
      | Inr e' \<Rightarrow>
     (case varchar 100 ''character varying(100)'' u0 of
        Inl err \<Rightarrow> Inl err
      | Inr u' \<Rightarrow>
     (case varchar 255 ''character varying(255)'' p0 of
        Inl err \<Rightarrow> Inl err
      | Inr p' \<Rightarrow> Inr (e', u', p')))))))"

text \<open>
  The row the statement would add for the coerced values, or the error of the first
  constraint that fails: \<open>NOT NULL\<close>, then the primary key and the two \<open>UNIQUE\<close>
  indexes. \<open>id\<close> is the value the sequence hands out and \<open>points\<close> its default 0.
\<close>

definition new_row :: "store \<Rightarrow> string option \<Rightarrow> string option \<Rightarrow> string option \<Rightarrow> js_error + user_row" where
  "new_row s e' u' p' =
     (case e' of
        None \<Rightarrow> Inl (not_null_violation ''email'')
      | Some ev \<Rightarrow>
     (case u' of
        None \<Rightarrow> Inl (not_null_violation ''username'')
      | Some uv \<Rightarrow>
     (case p' of
        None \<Rightarrow> Inl (not_null_violation ''password'')
      | Some pv \<Rightarrow>
          if users_id_seq s \<in> set (map user_id (users s))
            then Inl (unique_violation ''users_pkey'')
          else if ev \<in> set (map email (users s))
            then Inl (unique_violation ''users_email_key'')
          else if uv \<in> set (map username (users s))
            then Inl (unique_violation ''users_username_key'')
          else Inr \<lparr>user_id = users_id_seq s, email = ev, username = uv, password = pv,
                    points = Some 0\<rparr>)))"

text \<open>
  \<open>INSERT ... RETURNING id, email, username, points\<close>. The sequence behind
  \<open>SERIAL\<close> ends at 2147483647 and raises when asked beyond it. Once it has handed
  out a value it has moved on, whether the row then goes in or a constraint refuses
  it: a sequence is not rolled back.
\<close>

definition insert_user :: "store \<Rightarrow> string option \<Rightarrow> string option \<Rightarrow> string option \<Rightarrow> store \<times> (js_error + object list)" where
  "insert_user s e u p =
     (case insert_values e u p of
        Inl err \<Rightarrow> (s, Inl err)
      | Inr v \<Rightarrow>
          if 2147483647 < users_id_seq s
          then (s, Inl (Error
            ''nextval: reached maximum value of sequence \"users_id_seq\" (2147483647)''))
          else
            (case new_row s (fst v) (fst (snd v)) (snd (snd v)) of
               Inl err \<Rightarrow> (s\<lparr>users_id_seq := users_id_seq s + 1\<rparr>, Inl err)
             | Inr r \<Rightarrow>
                 (\<lparr>users = users s @ [r], users_id_seq = users_id_seq s + 1\<rparr>,
                  Inr [id_email_username_points r])))"

text \<open>\<open>SELECT * FROM users WHERE username = $1\<close>; \<open>username = NULL\<close> holds of no row.\<close>

definition select_by_username :: "store \<Rightarrow> string option \<Rightarrow> js_error + object list" where
  "select_by_username s u =
     (case bind_text u of
        Inl err \<Rightarrow> Inl err
      | Inr None \<Rightarrow> Inr []
      | Inr (Some n) \<Rightarrow> Inr (map all_columns (filter (\<lambda>r. username r = n) (users s))))"

text \<open>\<open>SELECT id, email, username, points FROM users WHERE id = $1\<close>.\<close>

definition select_by_id :: "store \<Rightarrow> int \<Rightarrow> js_error + object list" where
  "select_by_id s i =
     (case bind_integer (Some i) of
        Inl err \<Rightarrow> Inl err
      | Inr None \<Rightarrow> Inr []
      | Inr (Some n) \<Rightarrow>
          Inr (map id_email_username_points (filter (\<lambda>r. user_id r = n) (users s))))"

text \<open>
  The rows of \<open>UPDATE users SET points = points + $1 WHERE id = $2\<close>: the table after
  the statement and the rows it touched, or the error of the first addition that
  fails.
\<close>

fun set_points :: "user_row list \<Rightarrow> int4 option \<Rightarrow> int \<Rightarrow> js_error + (user_row list \<times> user_row list)" where
  "set_points [] d i = Inr ([], [])"
| "set_points (r # rs) d i =
     (if user_id r = i then
        (case int4pl (points r) d of
           Inl err \<Rightarrow> Inl err
         | Inr p \<Rightarrow>
             (case set_points rs d i of
                Inl err \<Rightarrow> Inl err
              | Inr tu \<Rightarrow> Inr (r\<lparr>points := p\<rparr> # fst tu, r\<lparr>points := p\<rparr> # snd tu)))
      else
        (case set_points rs d i of
           Inl err \<Rightarrow> Inl err
         | Inr tu \<Rightarrow> Inr (r # fst tu, snd tu)))"

text \<open>
  \<open>UPDATE ... RETURNING id, username, points\<close>: \<open>$1\<close> and \<open>$2\<close> are bound as
  integers, in this order. \<open>id = NULL\<close> holds of no row; a statement that raises
  changes nothing.
\<close>

definition update_points :: "store \<Rightarrow> int option \<Rightarrow> int option \<Rightarrow> store \<times> (js_error + object list)" where
  "update_points s d i =
     (case bind_integer d of
        Inl err \<Rightarrow> (s, Inl err)
      | Inr d' \<Rightarrow>
     (case bind_integer i of
        Inl err \<Rightarrow> (s, Inl err)
      | Inr None \<Rightarrow> (s, Inr [])
      | Inr (Some n) \<Rightarrow>
          (case set_points (users s) (map_option word_of_int d') n of
             Inl err \<Rightarrow> (s, Inl err)
           | Inr tu \<Rightarrow> (s\<lparr>users := fst tu\<rparr>, Inr (map id_username_points (snd tu))))))"

subsection \<open>The four handlers\<close>

text \<open>\<open>POST /api/register\<close>, lines 38 to 52.\<close>

definition register :: "bcrypt \<Rightarrow> string \<Rightarrow> store \<Rightarrow> string option \<Rightarrow> string option \<Rightarrow> string option \<Rightarrow> store \<times> response" where
  "register bc salt s e u p =
     (case bcrypt_hash bc salt p 10 of
        Inl err \<Rightarrow> (s, json_response 400 (failure (message err)))
      | Inr hashedPassword \<Rightarrow>
          (case insert_user s e u (Some hashedPassword) of
             (s', Inl err) \<Rightarrow> (s', json_response 400 (failure (message err)))
           | (s', Inr rows) \<Rightarrow> (s', json_response 200 (success_user (first_row rows)))))"

text \<open>
  \<open>POST /api/login\<close>, lines 56 to 85. \<open>login_settled\<close> is the handler from the
  point where \<open>await pool.query(...)\<close> settles, with a rejection (\<open>Inl\<close>, which
  the \<open>catch\<close> of line 82 receives) or with the rows; \<open>login\<close> runs it on what
  the statement yields in the store.
\<close>

definition login_settled :: "bcrypt \<Rightarrow> js_error + object list \<Rightarrow> string option \<Rightarrow> response" where
  "login_settled bc result p =
     (case result of
        Inl err \<Rightarrow> json_response 500 (failure (message err))
      | Inr rows \<Rightarrow>
          (case rows of
             [] \<Rightarrow> json_response 401 (failure invalid_login_message)
           | user # _ \<Rightarrow>
               (case bcrypt_compare bc p (property user ''password'') of
                  Inl err \<Rightarrow> json_response 500 (failure (message err))
                | Inr validPassword \<Rightarrow>
                    if \<not> validPassword then json_response 401 (failure invalid_login_message)
                    else json_response 200
                      (success_user (Some (object_literal
                         [(''id'', property user ''id''),
                          (''email'', property user ''email''),
                          (''username'', property user ''username''),
                          (''points'', property user ''points'')]))))))"

definition login :: "bcrypt \<Rightarrow> store \<Rightarrow> string option \<Rightarrow> string option \<Rightarrow> response" where
  "login bc s u p = login_settled bc (select_by_username s u) p"

text \<open>\<open>POST /api/add-points\<close>, lines 89 to 106.\<close>

definition addPoints :: "store \<Rightarrow> int option \<Rightarrow> int option \<Rightarrow> store \<times> response" where
  "addPoints s userId pts =
     (case update_points s pts userId of
        (s', Inl err) \<Rightarrow> (s', json_response 500 (failure (message err)))
      | (s', Inr rows) \<Rightarrow>
          if rows = [] then (s', json_response 404 (failure user_not_found_message))
          else (s', json_response 200 (success_user (first_row rows))))"

text \<open>\<open>GET /api/user/:userId\<close>, lines 109 to 126.\<close>

definition getUser :: "store \<Rightarrow> int \<Rightarrow> response" where
  "getUser s userId =
     (case select_by_id s userId of
        Inl err \<Rightarrow> json_response 500 (failure (message err))
      | Inr rows \<Rightarrow>
          if rows = [] then json_response 404 (failure user_not_found_message)
          else json_response 200 (success_user (first_row rows)))"

subsection \<open>Store states, valid input, an instance for the examples\<close>

text \<open>A string a \<open>VARCHAR(n)\<close> column holds as it is: no U+0000, at most \<open>n\<close> characters.\<close>

definition fits :: "nat \<Rightarrow> string \<Rightarrow> bool" where
  "fits n t \<longleftrightarrow> CHR 0x00 \<notin> set t \<and> pg_char_length t \<le> n"

text \<open>
  What the table's constraints keep true of every state: \<open>PRIMARY KEY\<close> and the two
  \<open>UNIQUE\<close> indexes; the sequence starts at 1 and stops after 2147483647, and the
  ids handed out lie below its next value; the strings fit their \<open>VARCHAR\<close>
  columns.
\<close>

definition store_inv :: "store \<Rightarrow> bool" where
  "store_inv s \<longleftrightarrow>
     distinct (map user_id (users s)) \<and>
     distinct (map email (users s)) \<and>
     distinct (map username (users s)) \<and>
     1 \<le> users_id_seq s \<and> users_id_seq s \<le> 2147483648 \<and>
     list_all (\<lambda>r. 1 \<le> user_id r \<and> user_id r < users_id_seq s \<and>
                    fits 255 (email r) \<and> fits 100 (username r) \<and>
                    fits 255 (password r)) (users s)"

text \<open>
  A registration the columns accept: the three fields are present, email and username
  fit their columns, and so does the hash (a bcrypt hash has 60 characters).
\<close>

definition valid_registration :: "bcrypt \<Rightarrow> string \<Rightarrow> string \<Rightarrow> string \<Rightarrow> string \<Rightarrow> bool" where
  "valid_registration bc salt e u p \<longleftrightarrow>
     fits 255 e \<and> fits 100 u \<and> fits 255 (kdf bc 10 salt p)"

text \<open>A request value the binding of its parameter accepts.\<close>

definition accepted_text :: "string option \<Rightarrow> bool" where
  "accepted_text v \<longleftrightarrow> (case v of None \<Rightarrow> True | Some t \<Rightarrow> CHR 0x00 \<notin> set t)"

definition accepted_integer :: "int option \<Rightarrow> bool" where
  "accepted_integer v \<longleftrightarrow> (case v of None \<Rightarrow> True | Some i \<Rightarrow> int4_range i)"

text \<open>
  A stand-in for bcrypt in the examples: the hash is the salt (two characters)
  followed by the password.
\<close>

definition example_bcrypt :: bcrypt where
  "example_bcrypt = \<lparr>kdf = (\<lambda>rounds salt d. salt @ d), verify = (\<lambda>d h. drop 2 h = d)\<rparr>"

text \<open>The store after alice has registered with password \<open>secret\<close>.\<close>

definition alice_store :: store where
  "alice_store =
     \<lparr>users = [\<lparr>user_id = 1, email = ''a@x.com'', username = ''alice'',
                 password = ''s1secret'', points = Some 0\<rparr>],
      users_id_seq = 2\<rparr>"

text \<open>The \<open>message\<close> property of a response body, when it has one.\<close>

definition response_message :: "response \<Rightarrow> json option" where
  "response_message r = (case body r of JObj kvs \<Rightarrow> property kvs ''message'' | _ \<Rightarrow> None)"

section \<open>Properties\<close>

subsection \<open>Response bodies\<close>

lemma failure_eq: "failure m = JObj [(''success'', JBool False), (''message'', JStr m)]"
  by (simp add: failure_def object_literal_def)

lemma success_user_Some: "success_user (Some j) = JObj [(''success'', JBool True), (''user'', j)]"
  by (simp add: success_user_def object_literal_def)

lemma success_user_None: "success_user None = JObj [(''success'', JBool True)]"
  by (simp add: success_user_def object_literal_def)

subsection \<open>The store\<close>

lemma decimal_nat_digit: "n < 10 \<Longrightarrow> decimal_nat n = [''0123456789'' ! n]"
  by (subst decimal_nat.simps) simp

lemma decimal_nat_more:
  "10 \<le> n \<Longrightarrow> decimal_nat n = decimal_nat (n div 10) @ [''0123456789'' ! (n mod 10)]"
  by (subst decimal_nat.simps) simp

lemma bind_text_None: "bind_text None = Inr None"
  by (simp add: bind_text_def)

lemma bind_text_accepted: "CHR 0x00 \<notin> set t \<Longrightarrow> bind_text (Some t) = Inr (Some t)"
  by (simp add: bind_text_def)

lemma bind_text_refused:
  "CHR 0x00 \<in> set t \<Longrightarrow>
   bind_text (Some t) = Inl (Error ''invalid byte sequence for encoding \"UTF8\": 0x00'')"
  by (simp add: bind_text_def)

lemma bind_text_Inr: "bind_text v = Inr w \<Longrightarrow> w = v \<and> accepted_text v"
  by (cases v) (auto simp: bind_text_def accepted_text_def split: if_splits)

lemma bind_integer_None: "bind_integer None = Inr None"
  by (simp add: bind_integer_def)

lemma bind_integer_accepted: "int4_range i \<Longrightarrow> bind_integer (Some i) = Inr (Some i)"
  by (simp add: bind_integer_def)

lemma bind_integer_Inr: "bind_integer v = Inr w \<Longrightarrow> w = v \<and> accepted_integer v"
  by (cases v) (auto simp: bind_integer_def accepted_integer_def split: if_splits)

lemma varchar_fits: "pg_char_length v \<le> n \<Longrightarrow> varchar n ty (Some v) = Inr (Some v)"
  by (simp add: varchar_def)

lemma varchar_None: "varchar n ty None = Inr None"
  by (simp add: varchar_def)

lemma insert_values_fit:
  "fits 255 e \<Longrightarrow> fits 100 u \<Longrightarrow> fits 255 p \<Longrightarrow>
   insert_values (Some e) (Some u) (Some p) = Inr (Some e, Some u, Some p)"
  by (simp add: insert_values_def fits_def bind_text_accepted varchar_fits)

lemma store_inv_seq_fresh: "store_inv s \<Longrightarrow> users_id_seq s \<notin> set (map user_id (users s))"
  by (auto simp: store_inv_def list_all_iff)

lemma store_inv_ids: "store_inv s \<Longrightarrow> distinct (map user_id (users s))"
  by (simp add: store_inv_def)

lemma store_inv_usernames: "store_inv s \<Longrightarrow> distinct (map username (users s))"
  by (simp add: store_inv_def)

lemma store_inv_row:
  "store_inv s \<Longrightarrow> r \<in> set (users s) \<Longrightarrow>
   int4_range (user_id r) \<and> fits 255 (email r) \<and> fits 100 (username r) \<and>
   fits 255 (password r)"
  by (auto simp: store_inv_def list_all_iff int4_range_def)

lemma filter_no_match:
  "i \<notin> set (map user_id xs) \<Longrightarrow> filter (\<lambda>x. user_id x = i) xs = []"
  by (induction xs) auto

lemma filter_id_one:
  "distinct (map user_id xs) \<Longrightarrow> r \<in> set xs \<Longrightarrow>
   filter (\<lambda>x. user_id x = user_id r) xs = [r]"
  by (induction xs) (auto simp: filter_no_match)

lemma store_inv_empty: "store_inv empty_store"
  by (simp add: store_inv_def empty_store_def)

lemma new_row_fresh:
  assumes "store_inv s"
    and "e \<notin> set (map email (users s))" "u \<notin> set (map username (users s))"
  shows "new_row s (Some e) (Some u) (Some h) =
           Inr \<lparr>user_id = users_id_seq s, email = e, username = u, password = h,
                points = Some 0\<rparr>"
  using assms store_inv_seq_fresh [OF assms(1)]
  by (simp add: new_row_def)

lemma getUser_known:
  assumes "store_inv s" "r \<in> set (users s)"
  shows "getUser s (user_id r) =
           \<lparr>status = 200,
            body = JObj [(''success'', JBool True),
                         (''user'', JObj [(''id'', JNum (user_id r)), (''email'', JStr (email r)),
                                          (''username'', JStr (username r)),
                                          (''points'', json_int4 (points r))])]\<rparr>"
  using store_inv_row [OF assms]
  by (simp add: getUser_def select_by_id_def bind_integer_accepted
      filter_id_one [OF store_inv_ids [OF assms(1)] assms(2)]
      json_response_def success_user_Some first_row_def id_email_username_points_def)

subsection \<open>Registration, then lookup\<close>

text \<open>
  C1. In a store that satisfies the table's constraints and whose sequence has a value
  left, a valid registration whose email and username no row carries succeeds with
  status 200 and returns the id the sequence hands out with the email and username of
  the request and points 0; and \<open>getUser\<close> with that id, on the store after the
  registration, returns the same id, email, username and points 0.
\<close>

theorem register_then_getUser:
  assumes "store_inv s" and "users_id_seq s \<le> 2147483647"
    and "valid_registration bc salt e u p"
    and "e \<notin> set (map email (users s))" and "u \<notin> set (map username (users s))"
  shows "snd (register bc salt s (Some e) (Some u) (Some p)) =
           \<lparr>status = 200,
            body = JObj [(''success'', JBool True),
                         (''user'', JObj [(''id'', JNum (users_id_seq s)), (''email'', JStr e),
                                          (''username'', JStr u), (''points'', JNum 0)])]\<rparr>
       \<and> getUser (fst (register bc salt s (Some e) (Some u) (Some p))) (users_id_seq s) =
           \<lparr>status = 200,
            body = JObj [(''success'', JBool True),
                         (''user'', JObj [(''id'', JNum (users_id_seq s)), (''email'', JStr e),
                                          (''username'', JStr u), (''points'', JNum 0)])]\<rparr>"
proof -
  let ?h = "kdf bc 10 salt p"
  let ?r = "\<lparr>user_id = users_id_seq s, email = e, username = u, password = ?h,
             points = Some (0 :: int4)\<rparr>"
  let ?s' = "\<lparr>users = users s @ [?r], users_id_seq = users_id_seq s + 1\<rparr>"
  from assms(3) have v: "insert_values (Some e) (Some u) (Some ?h) = Inr (Some e, Some u, Some ?h)"
    by (simp add: valid_registration_def insert_values_fit)
  have n: "new_row s (Some e) (Some u) (Some ?h) = Inr ?r"
    by (rule new_row_fresh [OF assms(1,4,5)])
  have reg: "register bc salt s (Some e) (Some u) (Some p) =
      (?s', json_response 200 (success_user (Some (JObj (id_email_username_points ?r)))))"
    using assms(2) v n
    by (simp add: register_def bcrypt_hash_def insert_user_def first_row_def)
  have range: "int4_range (users_id_seq s)"
    using assms(1,2) by (simp add: store_inv_def int4_range_def)
  have "filter (\<lambda>x. user_id x = users_id_seq s) (users s) = []"
    by (rule filter_no_match [OF store_inv_seq_fresh [OF assms(1)]])
  then have get: "getUser ?s' (users_id_seq s) =
      json_response 200 (success_user (Some (JObj (id_email_username_points ?r))))"
    using range
    by (simp add: getUser_def select_by_id_def bind_integer_accepted first_row_def)
  show ?thesis
    unfolding reg using get
    by (simp add: json_response_def success_user_Some id_email_username_points_def json_int4_def)
qed

lemma valid_alice: "valid_registration example_bcrypt ''s1'' ''a@x.com'' ''alice'' ''secret''"
  by (simp add: valid_registration_def fits_def example_bcrypt_def pg_char_length_def)

theorem register_then_getUser_witness:
  "store_inv empty_store
   \<and> users_id_seq empty_store \<le> 2147483647
   \<and> valid_registration example_bcrypt ''s1'' ''a@x.com'' ''alice'' ''secret''
   \<and> ''a@x.com'' \<notin> set (map email (users empty_store))
   \<and> ''alice'' \<notin> set (map username (users empty_store))
   \<and> snd (register example_bcrypt ''s1'' empty_store
             (Some ''a@x.com'') (Some ''alice'') (Some ''secret'')) =
       \<lparr>status = 200,
        body = JObj [(''success'', JBool True),
                     (''user'', JObj [(''id'', JNum 1), (''email'', JStr ''a@x.com''),
                                      (''username'', JStr ''alice''), (''points'', JNum 0)])]\<rparr>
   \<and> getUser (fst (register example_bcrypt ''s1'' empty_store
                      (Some ''a@x.com'') (Some ''alice'') (Some ''secret''))) 1 =
       \<lparr>status = 200,
        body = JObj [(''success'', JBool True),
                     (''user'', JObj [(''id'', JNum 1), (''email'', JStr ''a@x.com''),
                                      (''username'', JStr ''alice''), (''points'', JNum 0)])]\<rparr>"
proof -
  have q: "users_id_seq empty_store \<le> 2147483647"
    by (simp add: empty_store_def)
  have e: "''a@x.com'' \<notin> set (map email (users empty_store))"
    by (simp add: empty_store_def)
  have u: "''alice'' \<notin> set (map username (users empty_store))"
    by (simp add: empty_store_def)
  show ?thesis
    using store_inv_empty q valid_alice e u
      register_then_getUser [OF store_inv_empty q valid_alice e u]
    by (simp add: empty_store_def)
qed

subsection \<open>Fields of the response bodies\<close>

lemma property_all_columns:
  "property (all_columns r) ''password'' = Some (JStr (password r))"
  "property (all_columns r) ''id'' = Some (JNum (user_id r))"
  "property (all_columns r) ''email'' = Some (JStr (email r))"
  "property (all_columns r) ''username'' = Some (JStr (username r))"
  "property (all_columns r) ''points'' = Some (json_int4 (points r))"
  by (simp_all add: property_def all_columns_def)

lemma has_field_json_int4: "\<not> has_field f (json_int4 p)"
  by (simp add: json_int4_def split: option.split)

lemma has_field_failure: "has_field f (failure m) \<longleftrightarrow> f = ''success'' \<or> f = ''message''"
  by (auto simp add: failure_eq)

subsection \<open>What the login query yields\<close>

lemma select_by_username_NULL: "select_by_username s None = Inr []"
  by (simp add: select_by_username_def bind_text_None)

lemma select_by_username_refused:
  "CHR 0x00 \<in> set n \<Longrightarrow>
   select_by_username s (Some n) =
     Inl (Error ''invalid byte sequence for encoding \"UTF8\": 0x00'')"
  by (simp add: select_by_username_def bind_text_refused)

lemma select_by_username_accepted:
  "CHR 0x00 \<notin> set n \<Longrightarrow>
   select_by_username s (Some n) =
     Inr (map all_columns (filter (\<lambda>r. username r = n) (users s)))"
  by (simp add: select_by_username_def bind_text_accepted)

lemma filter_username_none:
  "n \<notin> set (map username xs) \<Longrightarrow> filter (\<lambda>r. username r = n) xs = []"
  by (induction xs) auto

lemma filter_username_one:
  "distinct (map username xs) \<Longrightarrow> r \<in> set xs \<Longrightarrow>
   filter (\<lambda>x. username x = username r) xs = [r]"
  by (induction xs) (auto simp: filter_username_none)

lemma select_by_username_unknown:
  assumes "accepted_text u" "u \<notin> set (map (\<lambda>r. Some (username r)) (users s))"
  shows "select_by_username s u = Inr []"
proof (cases u)
  case None
  then show ?thesis by (simp add: select_by_username_NULL)
next
  case (Some n)
  with assms have "CHR 0x00 \<notin> set n" "n \<notin> set (map username (users s))"
    by (auto simp: accepted_text_def)
  with Some show ?thesis
    by (simp add: select_by_username_accepted filter_username_none)
qed

lemma select_by_username_known:
  assumes "store_inv s" "r \<in> set (users s)"
  shows "select_by_username s (Some (username r)) = Inr [all_columns r]"
proof -
  from store_inv_row [OF assms] have "CHR 0x00 \<notin> set (username r)"
    by (simp add: fits_def)
  then show ?thesis
    by (simp add: select_by_username_accepted
        filter_username_one [OF store_inv_usernames [OF assms(1)] assms(2)])
qed

subsection \<open>What the handler does with it\<close>

lemma login_settled_rejected:
  "login_settled bc (Inl err) p = json_response 500 (failure (message err))"
  by (simp add: login_settled_def)

lemma login_settled_no_row:
  "login_settled bc (Inr []) p = json_response 401 (failure invalid_login_message)"
  by (simp add: login_settled_def)

lemma login_settled_row:
  "login_settled bc (Inr (all_columns r # rs)) p =
     (case bcrypt_compare bc p (Some (JStr (password r))) of
        Inl err \<Rightarrow> json_response 500 (failure (message err))
      | Inr ok \<Rightarrow>
          if ok then json_response 200 (success_user (Some (JObj (id_email_username_points r))))
          else json_response 401 (failure invalid_login_message))"
  by (simp add: login_settled_def property_all_columns object_literal_def
      id_email_username_points_def split: sum.split)

lemma login_unknown:
  "accepted_text u \<Longrightarrow> u \<notin> set (map (\<lambda>r. Some (username r)) (users s)) \<Longrightarrow>
   login bc s u p = json_response 401 (failure invalid_login_message)"
  by (simp add: login_def select_by_username_unknown login_settled_no_row)

lemma login_known:
  assumes "store_inv s" "r \<in> set (users s)"
  shows "login bc s (Some (username r)) (Some d) =
     (if verify bc d (password r)
      then json_response 200 (success_user (Some (JObj (id_email_username_points r))))
      else json_response 401 (failure invalid_login_message))"
  by (simp add: login_def select_by_username_known [OF assms] login_settled_row
      bcrypt_compare_def)

lemma login_known_raises:
  assumes "store_inv s" "r \<in> set (users s)"
    and "bcrypt_compare bc p (Some (JStr (password r))) = Inl err"
  shows "login bc s (Some (username r)) p = json_response 500 (failure (message err))"
  by (simp add: login_def select_by_username_known [OF assms(1,2)] login_settled_row assms(3))

lemma login_refused:
  "CHR 0x00 \<in> set n \<Longrightarrow>
   login bc s (Some n) p =
     json_response 500 (failure ''invalid byte sequence for encoding \"UTF8\": 0x00'')"
  by (simp add: login_def select_by_username_refused login_settled_rejected)


lemma login_wrong_password:
  assumes "store_inv s" "r \<in> set (users s)" "\<not> verify bc d (password r)"
  shows "login bc s (Some (username r)) (Some d) =
           json_response 401 (failure invalid_login_message)"
  using assms(3) by (simp add: login_known [OF assms(1,2)])

lemma no_password_login: "\<not> has_field ''password'' (body (login bc s u p))"
proof (cases "select_by_username s u")
  case (Inl err)
  then show ?thesis
    by (simp add: login_def login_settled_rejected json_response_def has_field_failure)
next
  case (Inr rows)
  then have "\<exists>xs. rows = map all_columns xs"
    by (auto simp: select_by_username_def split: sum.splits option.splits)
  then obtain xs where rows: "rows = map all_columns xs" ..
  show ?thesis
  proof (cases xs)
    case Nil
    with Inr rows show ?thesis
      by (simp add: login_def login_settled_no_row json_response_def has_field_failure)
  next
    case (Cons r rs)
    with Inr rows show ?thesis
      by (simp add: login_def login_settled_row json_response_def has_field_failure
          success_user_Some id_email_username_points_def has_field_json_int4
          split: sum.split)
  qed
qed

lemma login_status_401_body:
  assumes "status (login bc s u p) = 401"
  shows "body (login bc s u p) =
     JObj [(''success'', JBool False), (''message'', JStr invalid_login_message)]"
proof (cases "select_by_username s u")
  case (Inl err)
  with assms show ?thesis
    by (simp add: login_def login_settled_rejected json_response_def)
next
  case (Inr rows)
  then have "\<exists>xs. rows = map all_columns xs"
    by (auto simp: select_by_username_def split: sum.splits option.splits)
  then obtain xs where rows: "rows = map all_columns xs" ..
  show ?thesis
  proof (cases xs)
    case Nil
    with Inr rows show ?thesis
      by (simp add: login_def login_settled_no_row json_response_def failure_eq)
  next
    case (Cons r rs)
    with Inr rows assms show ?thesis
      by (simp add: login_def login_settled_row json_response_def failure_eq
          split: sum.splits if_splits)
  qed
qed

subsection \<open>Login\<close>

lemma alice_store_reached:
  "fst (register example_bcrypt ''s1'' empty_store
          (Some ''a@x.com'') (Some ''alice'') (Some ''secret'')) = alice_store"
  by (simp add: register_def bcrypt_hash_def insert_user_def insert_values_def bind_text_def
      new_row_def varchar_def pg_char_length_def empty_store_def example_bcrypt_def
      alice_store_def)

lemma store_inv_alice: "store_inv alice_store"
  by (simp add: store_inv_def alice_store_def fits_def pg_char_length_def)




text \<open>
  C3 (as amended). In a store that satisfies the table's constraints, a login whose
  username the store accepts and no row carries (with any password, or none) and a
  login with the username of a row and a password that does not verify against that
  row's hash get the same status and the same message: the two responses are equal,
  with status 401.
\<close>

theorem login_failures_indistinguishable:
  assumes "store_inv s"
    and "accepted_text u1"
    and "u1 \<notin> set (map (\<lambda>r. Some (username r)) (users s))"
    and "r \<in> set (users s)" and "\<not> verify bc p2 (password r)"
  shows "status (login bc s u1 p1) = status (login bc s (Some (username r)) (Some p2))
       \<and> response_message (login bc s u1 p1) =
           response_message (login bc s (Some (username r)) (Some p2))
       \<and> login bc s u1 p1 = login bc s (Some (username r)) (Some p2)
       \<and> status (login bc s u1 p1) = 401"
proof -
  have a: "login bc s u1 p1 = json_response 401 (failure invalid_login_message)"
    by (rule login_unknown [OF assms(2,3)])
  have b: "login bc s (Some (username r)) (Some p2) =
             json_response 401 (failure invalid_login_message)"
    by (rule login_wrong_password [OF assms(1,4,5)])
  show ?thesis
    unfolding a b by (simp add: json_response_def)
qed

theorem login_failures_indistinguishable_witness:
  "store_inv alice_store
   \<and> accepted_text (Some ''bob'')
   \<and> Some ''bob'' \<notin> set (map (\<lambda>r. Some (username r)) (users alice_store))
   \<and> \<not> verify example_bcrypt ''wrong'' ''s1secret''
   \<and> status (login example_bcrypt alice_store (Some ''bob'') (Some ''secret'')) =
       status (login example_bcrypt alice_store (Some ''alice'') (Some ''wrong''))
   \<and> response_message (login example_bcrypt alice_store (Some ''bob'') (Some ''secret'')) =
       response_message (login example_bcrypt alice_store (Some ''alice'') (Some ''wrong''))
   \<and> status (login example_bcrypt alice_store (Some ''bob'') (Some ''secret'')) = 401"
proof -
  let ?r = "\<lparr>user_id = 1, email = ''a@x.com'', username = ''alice'',
             password = ''s1secret'', points = Some (0 :: int4)\<rparr>"
  have h1: "accepted_text (Some ''bob'')"
    by (simp add: accepted_text_def)
  have h2: "Some ''bob'' \<notin> set (map (\<lambda>r. Some (username r)) (users alice_store))"
    by (simp add: alice_store_def)
  have h3: "?r \<in> set (users alice_store)"
    by (simp add: alice_store_def)
  have h4: "\<not> verify example_bcrypt ''wrong'' (password ?r)"
    by (simp add: example_bcrypt_def)
  show ?thesis
    using store_inv_alice h1 h2 h4
      login_failures_indistinguishable [OF store_inv_alice h1 h2 h3 h4, of "Some ''secret''"]
    by simp
qed

text \<open>
  C3 as stated fails for a username that matches no record because it holds U+0000:
  the store refuses the parameter, the \<open>catch\<close> answers 500 with the store's
  message, and the wrong password for alice is answered 401 with the fixed one.
\<close>

theorem login_failures_distinguishable:
  "Some [CHR ''b'', CHR ''o'', CHR 0x00, CHR ''b''] \<notin>
       set (map (\<lambda>r. Some (username r)) (users alice_store))
   \<and> \<not> verify example_bcrypt ''wrong'' ''s1secret''
   \<and> status (login example_bcrypt alice_store (Some [CHR ''b'', CHR ''o'', CHR 0x00, CHR ''b''])
               (Some ''secret'')) = 500
   \<and> status (login example_bcrypt alice_store (Some ''alice'') (Some ''wrong'')) = 401
   \<and> response_message (login example_bcrypt alice_store
         (Some [CHR ''b'', CHR ''o'', CHR 0x00, CHR ''b'']) (Some ''secret'')) \<noteq>
       response_message (login example_bcrypt alice_store (Some ''alice'') (Some ''wrong''))"
  by (simp add: login_def login_settled_def select_by_username_def bind_text_def
      alice_store_def all_columns_def property_def bcrypt_compare_def json_response_def
      failure_eq example_bcrypt_def response_message_def invalid_login_message_def)

subsection \<open>What a failed login tells\<close>

text \<open>
  C8 (as amended). In a store that satisfies the table's constraints, a login with a
  username the store accepts and no row carries, and a login with the username of a
  row and a password that does not verify against that row's hash, are answered with
  status 401 and the body \<open>{success: false, message: m}\<close>, where \<open>m\<close> is the string
  literal of lines 63 and 70 of the source; and every response of \<open>login\<close> with
  status 401 has exactly this body.
\<close>

theorem login_bad_credentials_response:
  assumes "store_inv s"
  shows "(accepted_text u \<and> u \<notin> set (map (\<lambda>r. Some (username r)) (users s)) \<longrightarrow>
            login bc s u p =
              \<lparr>status = 401,
               body = JObj [(''success'', JBool False),
                            (''message'', JStr invalid_login_message)]\<rparr>)
       \<and> (\<forall>r\<in>set (users s). \<not> verify bc d (password r) \<longrightarrow>
            login bc s (Some (username r)) (Some d) =
              \<lparr>status = 401,
               body = JObj [(''success'', JBool False),
                            (''message'', JStr invalid_login_message)]\<rparr>)
       \<and> (status (login bc s u p) = 401 \<longrightarrow>
            body (login bc s u p) =
              JObj [(''success'', JBool False), (''message'', JStr invalid_login_message)])"
proof -
  have a: "login bc s u p = json_response 401 (failure invalid_login_message)"
    if "accepted_text u" "u \<notin> set (map (\<lambda>r. Some (username r)) (users s))"
    using that by (rule login_unknown)
  have b: "login bc s (Some (username r)) (Some d) =
             json_response 401 (failure invalid_login_message)"
    if "r \<in> set (users s)" "\<not> verify bc d (password r)" for r
    by (rule login_wrong_password [OF assms that])
  from a b login_status_401_body [of bc s u p] show ?thesis
    by (simp add: json_response_def failure_eq)
qed

theorem login_bad_credentials_response_witness:
  "store_inv alice_store
   \<and> accepted_text (Some ''bob'')
   \<and> Some ''bob'' \<notin> set (map (\<lambda>r. Some (username r)) (users alice_store))
   \<and> login example_bcrypt alice_store (Some ''bob'') (Some ''secret'') =
       \<lparr>status = 401,
        body = JObj [(''success'', JBool False), (''message'', JStr invalid_login_message)]\<rparr>
   \<and> login example_bcrypt alice_store (Some ''alice'') (Some ''wrong'') =
       \<lparr>status = 401,
        body = JObj [(''success'', JBool False), (''message'', JStr invalid_login_message)]\<rparr>"
  using store_inv_alice
    login_bad_credentials_response [OF store_inv_alice, of "Some ''bob''" example_bcrypt "Some ''secret''" "''wrong''"]
  by (simp add: alice_store_def example_bcrypt_def accepted_text_def)

text \<open>
  C8 as stated fails on the message: a wrong password for alice is answered 401, but
  the message is the literal of the source, not \<open>Invalid username or password\<close>.
\<close>

theorem login_message_not_english:
  "login example_bcrypt alice_store (Some ''alice'') (Some ''wrong'') =
       \<lparr>status = 401,
        body = JObj [(''success'', JBool False), (''message'', JStr invalid_login_message)]\<rparr>
   \<and> invalid_login_message \<noteq> ''Invalid username or password''
   \<and> body (login example_bcrypt alice_store (Some ''alice'') (Some ''wrong'')) \<noteq>
       JObj [(''success'', JBool False), (''message'', JStr ''Invalid username or password'')]"
  by (simp add: login_def login_settled_def select_by_username_def bind_text_def
      alice_store_def all_columns_def property_def bcrypt_compare_def example_bcrypt_def
      json_response_def failure_eq invalid_login_message_def)

text \<open>
  C9 (as amended). In a store that satisfies the table's constraints, a login with a
  username the store accepts and no row carries, and a login with a password that
  does not verify, carry the same fixed message; when \<open>bcrypt.compare\<close> rejects for
  the row the username selects, or when the query is rejected (as the store does for
  a username that holds U+0000, or for any other reason), the response has status 500
  and its message is the message of that error, as it is.
\<close>

theorem login_exception_message:
  assumes "store_inv s"
  shows "(accepted_text u \<and> u \<notin> set (map (\<lambda>r. Some (username r)) (users s)) \<longrightarrow>
            response_message (login bc s u p) = Some (JStr invalid_login_message))
       \<and> (\<forall>r\<in>set (users s). \<not> verify bc d (password r) \<longrightarrow>
            response_message (login bc s (Some (username r)) (Some d)) =
              Some (JStr invalid_login_message))
       \<and> (\<forall>r\<in>set (users s). \<forall>err.
            bcrypt_compare bc p (property (all_columns r) ''password'') = Inl err \<longrightarrow>
            login bc s (Some (username r)) p =
              \<lparr>status = 500,
               body = JObj [(''success'', JBool False), (''message'', JStr (message err))]\<rparr>)
       \<and> (\<forall>err. select_by_username s u = Inl err \<longrightarrow>
            login bc s u p =
              \<lparr>status = 500,
               body = JObj [(''success'', JBool False), (''message'', JStr (message err))]\<rparr>)
       \<and> login_settled bc (Inl rejection) p =
            \<lparr>status = 500,
             body = JObj [(''success'', JBool False), (''message'', JStr (message rejection))]\<rparr>"
proof -
  have a: "login bc s u p = json_response 401 (failure invalid_login_message)"
    if "accepted_text u" "u \<notin> set (map (\<lambda>r. Some (username r)) (users s))"
    using that by (rule login_unknown)
  have b: "login bc s (Some (username r)) (Some d) =
             json_response 401 (failure invalid_login_message)"
    if "r \<in> set (users s)" "\<not> verify bc d (password r)" for r
    by (rule login_wrong_password [OF assms that])
  have c: "login bc s (Some (username r)) p = json_response 500 (failure (message err))"
    if "r \<in> set (users s)"
      and "bcrypt_compare bc p (property (all_columns r) ''password'') = Inl err" for r err
    using that(2) login_known_raises [OF assms that(1), of bc p err]
    by (simp add: property_all_columns)
  have d: "login bc s u p = json_response 500 (failure (message err))"
    if "select_by_username s u = Inl err" for err
    by (simp add: login_def that login_settled_rejected)
  have e: "login_settled bc (Inl rejection) p = json_response 500 (failure (message rejection))"
    by (rule login_settled_rejected)
  from a b c d e show ?thesis
    by (simp add: json_response_def failure_eq response_message_def property_def)
qed

theorem login_exception_message_witness:
  "store_inv alice_store
   \<and> bcrypt_compare example_bcrypt None
       (property (all_columns \<lparr>user_id = 1, email = ''a@x.com'', username = ''alice'',
                               password = ''s1secret'', points = Some 0\<rparr>) ''password'') =
       Inl (Error ''data and hash arguments required'')
   \<and> login example_bcrypt alice_store (Some ''alice'') None =
       \<lparr>status = 500,
        body = JObj [(''success'', JBool False),
                     (''message'', JStr ''data and hash arguments required'')]\<rparr>
   \<and> response_message (login example_bcrypt alice_store (Some ''alice'') (Some ''wrong'')) =
       Some (JStr invalid_login_message)
   \<and> select_by_username alice_store (Some [CHR ''b'', CHR ''o'', CHR 0x00, CHR ''b'']) =
       Inl (Error ''invalid byte sequence for encoding \"UTF8\": 0x00'')
   \<and> login example_bcrypt alice_store (Some [CHR ''b'', CHR ''o'', CHR 0x00, CHR ''b''])
         (Some ''secret'') =
       \<lparr>status = 500,
        body = JObj [(''success'', JBool False),
                     (''message'', JStr ''invalid byte sequence for encoding \"UTF8\": 0x00'')]\<rparr>
   \<and> login_settled example_bcrypt (Inl (Error ''Connection terminated unexpectedly''))
         (Some ''secret'') =
       \<lparr>status = 500,
        body = JObj [(''success'', JBool False),
                     (''message'', JStr ''Connection terminated unexpectedly'')]\<rparr>"
proof -
  have nul: "select_by_username alice_store (Some [CHR ''b'', CHR ''o'', CHR 0x00, CHR ''b'']) =
       Inl (Error ''invalid byte sequence for encoding \"UTF8\": 0x00'')"
    by (simp add: select_by_username_def bind_text_def)
  have "login example_bcrypt alice_store (Some [CHR ''b'', CHR ''o'', CHR 0x00, CHR ''b''])
         (Some ''secret'') =
       \<lparr>status = 500,
        body = JObj [(''success'', JBool False),
                     (''message'', JStr ''invalid byte sequence for encoding \"UTF8\": 0x00'')]\<rparr>
     \<and> login_settled example_bcrypt (Inl (Error ''Connection terminated unexpectedly''))
          (Some ''secret'') =
        \<lparr>status = 500,
         body = JObj [(''success'', JBool False),
                      (''message'', JStr ''Connection terminated unexpectedly'')]\<rparr>"
    using nul login_exception_message [OF store_inv_alice,
        of "Some [CHR ''b'', CHR ''o'', CHR 0x00, CHR ''b'']" example_bcrypt
        "Some ''secret''" "''wrong''" "Error ''Connection terminated unexpectedly''"]
    by simp
  then show ?thesis
    using store_inv_alice nul
      login_exception_message [OF store_inv_alice, of "Some ''alice''" example_bcrypt None "''wrong''"]
    by (simp add: alice_store_def example_bcrypt_def bcrypt_compare_def)
qed

text \<open>
  C9 as stated fails when handling raises: a login for alice without a password makes
  \<open>bcrypt.compare\<close> reject, and the \<open>catch\<close> of lines 82 to 84 answers 500
  with the library's own message instead of the fixed one.
\<close>

theorem login_exception_leaks_message:
  "login example_bcrypt alice_store (Some ''alice'') None =
       \<lparr>status = 500,
        body = JObj [(''success'', JBool False),
                     (''message'', JStr ''data and hash arguments required'')]\<rparr>
   \<and> response_message (login example_bcrypt alice_store (Some ''alice'') None) \<noteq>
       Some (JStr invalid_login_message)"
  by (simp add: login_def login_settled_def select_by_username_def bind_text_def
      alice_store_def all_columns_def property_def bcrypt_compare_def json_response_def
      failure_eq invalid_login_message_def response_message_def)

subsection \<open>Adding points\<close>

lemma set_points_no_match:
  "i \<notin> set (map user_id xs) \<Longrightarrow> set_points xs d i = Inr (xs, [])"
  by (induction xs) auto

lemma map_no_match:
  "i \<notin> set (map user_id xs) \<Longrightarrow>
   map (\<lambda>x. if user_id x = i then x\<lparr>points := v\<rparr> else x) xs = xs"
  by (induction xs) auto

lemma set_points_match:
  assumes "distinct (map user_id xs)" "r \<in> set xs" "int4pl (points r) d = Inr v"
  shows "set_points xs d (user_id r) =
           Inr (map (\<lambda>x. if user_id x = user_id r then x\<lparr>points := v\<rparr> else x) xs,
                [r\<lparr>points := v\<rparr>])"
  using assms
proof (induction xs)
  case Nil
  then show ?case by simp
next
  case (Cons x xs)
  show ?case
  proof (cases "x = r")
    case True
    with Cons.prems have "user_id r \<notin> set (map user_id xs)"
      by simp
    then have "set_points xs d (user_id r) = Inr (xs, [])"
      and "map (\<lambda>x. if user_id x = user_id r then x\<lparr>points := v\<rparr> else x) xs = xs"
      by (simp_all add: set_points_no_match map_no_match)
    with True Cons.prems(3) show ?thesis
      by simp
  next
    case False
    with Cons.prems have r: "r \<in> set xs" and d: "distinct (map user_id xs)"
      and ne: "user_id x \<noteq> user_id r"
      by auto
    from Cons.IH [OF d r Cons.prems(3)] ne show ?thesis
      by simp
  qed
qed

lemma set_points_error:
  assumes "distinct (map user_id xs)" "r \<in> set xs" "int4pl (points r) d = Inl err"
  shows "set_points xs d (user_id r) = Inl err"
  using assms
proof (induction xs)
  case Nil
  then show ?case by simp
next
  case (Cons x xs)
  show ?case
  proof (cases "x = r")
    case True
    with Cons.prems(3) show ?thesis by simp
  next
    case False
    with Cons.prems have r: "r \<in> set xs" and d: "distinct (map user_id xs)"
      and ne: "user_id x \<noteq> user_id r"
      by auto
    from Cons.IH [OF d r Cons.prems(3)] ne show ?thesis
      by simp
  qed
qed

lemma sint_bound: "sint (word_of_int d :: int4) = d" if "int4_range d"
proof -
  have "signed_take_bit 31 d = d"
    by (rule signed_take_bit_int_eq_self) (use that in \<open>simp_all add: int4_range_def\<close>)
  then show ?thesis
    by (simp add: sint_sbintrunc')
qed

lemma int4pl_zero: "int4pl (Some 0) (Some d) = Inr (Some d)"
proof -
  have "- 2147483648 \<le> sint d" "sint d \<le> 2147483647"
    using sint_ge [of d] sint_lt [of d] by simp_all
  then show ?thesis by (simp add: int4pl_def)
qed

lemma int4pl_in_range:
  "- 2147483648 \<le> sint a + sint b \<Longrightarrow> sint a + sint b \<le> 2147483647 \<Longrightarrow>
   int4pl (Some a) (Some b) = Inr (Some (a + b)) \<and> sint (a + b) = sint a + sint b"
proof -
  assume lo: "- 2147483648 \<le> sint a + sint b" and hi: "sint a + sint b \<le> 2147483647"
  have "signed_take_bit 31 (sint a + sint b) = sint a + sint b"
    by (rule signed_take_bit_int_eq_self) (use lo hi in simp_all)
  then have "sint (a + b) = sint a + sint b"
    by (simp add: sint_word_add)
  with lo hi show ?thesis
    by (simp add: int4pl_def)
qed

lemma columns_after_set_points:
  "map user_id (map (\<lambda>x. if user_id x = i then x\<lparr>points := v\<rparr> else x) xs) = map user_id xs"
  "map email (map (\<lambda>x. if user_id x = i then x\<lparr>points := v\<rparr> else x) xs) = map email xs"
  "map username (map (\<lambda>x. if user_id x = i then x\<lparr>points := v\<rparr> else x) xs) = map username xs"
  "map password (map (\<lambda>x. if user_id x = i then x\<lparr>points := v\<rparr> else x) xs) = map password xs"
  by (induction xs) simp_all

lemma store_inv_columns:
  "store_inv s \<longleftrightarrow>
     distinct (map user_id (users s)) \<and> distinct (map email (users s)) \<and>
     distinct (map username (users s)) \<and>
     1 \<le> users_id_seq s \<and> users_id_seq s \<le> 2147483648 \<and>
     list_all (\<lambda>i. 1 \<le> i \<and> i < users_id_seq s) (map user_id (users s)) \<and>
     list_all (fits 255) (map email (users s)) \<and>
     list_all (fits 100) (map username (users s)) \<and>
     list_all (fits 255) (map password (users s))"
  by (auto simp: store_inv_def list_all_iff)

lemma store_inv_set_points:
  "store_inv s \<Longrightarrow>
   store_inv (s\<lparr>users := map (\<lambda>x. if user_id x = i then x\<lparr>points := v\<rparr> else x) (users s)\<rparr>)"
  by (simp add: store_inv_columns columns_after_set_points del: map_map)

lemma addPoints_hit:
  assumes "store_inv s" "r \<in> set (users s)" "accepted_integer d"
    and "int4pl (points r) (map_option word_of_int d) = Inr v"
  shows "addPoints s (Some (user_id r)) d =
           (s\<lparr>users := map (\<lambda>x. if user_id x = user_id r then x\<lparr>points := v\<rparr> else x) (users s)\<rparr>,
            \<lparr>status = 200,
             body = JObj [(''success'', JBool True),
                          (''user'', JObj [(''id'', JNum (user_id r)),
                                           (''username'', JStr (username r)),
                                           (''points'', json_int4 v)])]\<rparr>)"
proof -
  from assms(3) have d: "bind_integer d = Inr d"
    by (cases d) (simp_all add: accepted_integer_def bind_integer_def)
  from store_inv_row [OF assms(1,2)] have i: "bind_integer (Some (user_id r)) = Inr (Some (user_id r))"
    by (simp add: bind_integer_accepted)
  show ?thesis
    by (simp add: addPoints_def update_points_def d i
        set_points_match [OF store_inv_ids [OF assms(1)] assms(2,4)]
        json_response_def success_user_Some first_row_def id_username_points_def)
qed

lemma addPoints_raise:
  assumes "store_inv s" "r \<in> set (users s)" "accepted_integer d"
    and "int4pl (points r) (map_option word_of_int d) = Inl err"
  shows "addPoints s (Some (user_id r)) d = (s, json_response 500 (failure (message err)))"
proof -
  from assms(3) have d: "bind_integer d = Inr d"
    by (cases d) (simp_all add: accepted_integer_def bind_integer_def)
  from store_inv_row [OF assms(1,2)] have i: "bind_integer (Some (user_id r)) = Inr (Some (user_id r))"
    by (simp add: bind_integer_accepted)
  show ?thesis
    by (simp add: addPoints_def update_points_def d i
        set_points_error [OF store_inv_ids [OF assms(1)] assms(2,4)])
qed

lemma addPoints_miss:
  assumes "i \<notin> set (map (\<lambda>r. Some (user_id r)) (users s))"
    and "accepted_integer i" "accepted_integer d"
  shows "addPoints s i d = (s, json_response 404 (failure user_not_found_message))"
proof -
  from assms(3) have d: "bind_integer d = Inr d"
    by (cases d) (simp_all add: accepted_integer_def bind_integer_def)
  from assms(2) have i: "bind_integer i = Inr i"
    by (cases i) (simp_all add: accepted_integer_def bind_integer_def)
  show ?thesis
  proof (cases i)
    case None
    with d i show ?thesis by (simp add: addPoints_def update_points_def)
  next
    case (Some n)
    with assms(1) have "n \<notin> set (map user_id (users s))"
      by auto
    then have "set_points (users s) (map_option word_of_int d) n = Inr (users s, [])"
      by (rule set_points_no_match)
    with Some d i show ?thesis by (simp add: addPoints_def update_points_def)
  qed
qed

lemma addPoints_miss_store:
  assumes "i \<notin> set (map (\<lambda>r. Some (user_id r)) (users s))"
  shows "fst (addPoints s i d) = s"
proof (cases "bind_integer d")
  case (Inl err)
  then show ?thesis by (simp add: addPoints_def update_points_def)
next
  case d: (Inr d')
  show ?thesis
  proof (cases "bind_integer i")
    case (Inl err)
    with d show ?thesis by (simp add: addPoints_def update_points_def)
  next
    case (Inr i')
    from bind_integer_Inr [OF this] have i': "i' = i" by simp
    show ?thesis
    proof (cases i)
      case None
      with d Inr i' show ?thesis by (simp add: addPoints_def update_points_def)
    next
      case (Some n)
      with assms have "n \<notin> set (map user_id (users s))"
        by auto
      then have "set_points (users s) (map_option word_of_int d') n = Inr (users s, [])"
        by (rule set_points_no_match)
      with Some d Inr i' show ?thesis by (simp add: addPoints_def update_points_def)
    qed
  qed
qed

text \<open>
  C4 (as amended). In a store that satisfies the table's constraints, for a row with
  points 0 and deltas \<open>d1\<close>, \<open>d2\<close> of either sign that lie in the 32-bit range of
  the column, and whose sum does: \<open>addPoints\<close> with \<open>d1\<close> answers 200 with points
  \<open>d1\<close>, \<open>addPoints\<close> with \<open>d2\<close> then answers 200 with points \<open>d1 + d2\<close>, and
  the row then carries \<open>d1 + d2\<close>, as \<open>getUser\<close> reads it.
\<close>

theorem addPoints_twice:
  assumes "store_inv s" and "r \<in> set (users s)" and "points r = Some 0"
    and "int4_range d1" and "int4_range d2" and "int4_range (d1 + d2)"
  shows "snd (addPoints s (Some (user_id r)) (Some d1)) =
           \<lparr>status = 200,
            body = JObj [(''success'', JBool True),
                         (''user'', JObj [(''id'', JNum (user_id r)),
                                          (''username'', JStr (username r)),
                                          (''points'', JNum d1)])]\<rparr>
       \<and> snd (addPoints (fst (addPoints s (Some (user_id r)) (Some d1)))
                (Some (user_id r)) (Some d2)) =
           \<lparr>status = 200,
            body = JObj [(''success'', JBool True),
                         (''user'', JObj [(''id'', JNum (user_id r)),
                                          (''username'', JStr (username r)),
                                          (''points'', JNum (d1 + d2))])]\<rparr>
       \<and> getUser (fst (addPoints (fst (addPoints s (Some (user_id r)) (Some d1)))
                     (Some (user_id r)) (Some d2))) (user_id r) =
           \<lparr>status = 200,
            body = JObj [(''success'', JBool True),
                         (''user'', JObj [(''id'', JNum (user_id r)), (''email'', JStr (email r)),
                                          (''username'', JStr (username r)),
                                          (''points'', JNum (d1 + d2))])]\<rparr>"
proof -
  let ?i = "user_id r"
  let ?w1 = "word_of_int d1 :: int4" and ?w2 = "word_of_int d2 :: int4"
  let ?upd = "\<lambda>v x. if user_id x = ?i then x\<lparr>points := v\<rparr> else x"
  let ?s1 = "s\<lparr>users := map (?upd (Some ?w1)) (users s)\<rparr>"
  let ?r1 = "r\<lparr>points := Some ?w1\<rparr>"
  let ?s2 = "?s1\<lparr>users := map (?upd (Some (?w1 + ?w2))) (users ?s1)\<rparr>"
  let ?r2 = "r\<lparr>points := Some (?w1 + ?w2)\<rparr>"
  have acc: "accepted_integer (Some d1)" "accepted_integer (Some d2)"
    using assms(4,5) by (simp_all add: accepted_integer_def)
  have w1: "sint ?w1 = d1" and w2: "sint ?w2 = d2"
    using assms(4,5) by (simp_all add: sint_bound)
  have p1: "int4pl (points r) (map_option word_of_int (Some d1)) = Inr (Some ?w1)"
    by (simp add: assms(3) int4pl_zero)
  have a1: "addPoints s (Some ?i) (Some d1) =
              (?s1, \<lparr>status = 200,
                     body = JObj [(''success'', JBool True),
                                  (''user'', JObj [(''id'', JNum ?i),
                                                   (''username'', JStr (username r)),
                                                   (''points'', json_int4 (Some ?w1))])]\<rparr>)"
    by (rule addPoints_hit [OF assms(1,2) acc(1) p1])
  have inv1: "store_inv ?s1"
    by (rule store_inv_set_points [OF assms(1)])
  have in1: "?r1 \<in> set (users ?s1)"
    using assms(2) by (auto simp: image_iff intro!: bexI [of _ r])
  have range: "- 2147483648 \<le> sint ?w1 + sint ?w2" "sint ?w1 + sint ?w2 \<le> 2147483647"
    using assms(6) by (simp_all add: w1 w2 int4_range_def)
  have p2: "int4pl (points ?r1) (map_option word_of_int (Some d2)) = Inr (Some (?w1 + ?w2))"
    and sum: "sint (?w1 + ?w2) = d1 + d2"
    using int4pl_in_range [OF range] by (simp_all add: w1 w2)
  have a2: "addPoints ?s1 (Some (user_id ?r1)) (Some d2) =
              (?s1\<lparr>users := map (\<lambda>x. if user_id x = user_id ?r1 then x\<lparr>points := Some (?w1 + ?w2)\<rparr> else x) (users ?s1)\<rparr>,
               \<lparr>status = 200,
                body = JObj [(''success'', JBool True),
                             (''user'', JObj [(''id'', JNum (user_id ?r1)),
                                              (''username'', JStr (username ?r1)),
                                              (''points'', json_int4 (Some (?w1 + ?w2)))])]\<rparr>)"
    by (rule addPoints_hit [OF inv1 in1 acc(2) p2])
  have inv2: "store_inv ?s2"
    by (rule store_inv_set_points [OF inv1])
  have in2: "?r2 \<in> set (users ?s2)"
    using assms(2) by (auto simp: image_iff intro!: bexI [of _ r])
  have g: "getUser ?s2 (user_id ?r2) =
           \<lparr>status = 200,
            body = JObj [(''success'', JBool True),
                         (''user'', JObj [(''id'', JNum (user_id ?r2)), (''email'', JStr (email ?r2)),
                                          (''username'', JStr (username ?r2)),
                                          (''points'', json_int4 (points ?r2))])]\<rparr>"
    by (rule getUser_known [OF inv2 in2])
  have c1: "snd (addPoints s (Some ?i) (Some d1)) =
           \<lparr>status = 200,
            body = JObj [(''success'', JBool True),
                         (''user'', JObj [(''id'', JNum ?i),
                                          (''username'', JStr (username r)),
                                          (''points'', JNum d1)])]\<rparr>"
    by (simp add: a1 json_int4_def w1)
  have s1: "fst (addPoints s (Some ?i) (Some d1)) = ?s1"
    by (simp add: a1)
  have c2: "snd (addPoints ?s1 (Some ?i) (Some d2)) =
           \<lparr>status = 200,
            body = JObj [(''success'', JBool True),
                         (''user'', JObj [(''id'', JNum ?i),
                                          (''username'', JStr (username r)),
                                          (''points'', JNum (d1 + d2))])]\<rparr>"
    using a2 sum by (simp add: json_int4_def)
  have s2: "fst (addPoints ?s1 (Some ?i) (Some d2)) = ?s2"
    using a2 by simp
  have c3: "getUser ?s2 ?i =
           \<lparr>status = 200,
            body = JObj [(''success'', JBool True),
                         (''user'', JObj [(''id'', JNum ?i), (''email'', JStr (email r)),
                                          (''username'', JStr (username r)),
                                          (''points'', JNum (d1 + d2))])]\<rparr>"
    using g sum by (simp add: json_int4_def)
  show ?thesis
    unfolding s1 s2 using c1 c2 c3 by (intro conjI)
qed

theorem addPoints_twice_witness:
  "store_inv alice_store
   \<and> int4_range 5 \<and> int4_range (- 2) \<and> int4_range (5 + - 2)
   \<and> snd (addPoints alice_store (Some 1) (Some 5)) =
       \<lparr>status = 200,
        body = JObj [(''success'', JBool True),
                     (''user'', JObj [(''id'', JNum 1), (''username'', JStr ''alice''),
                                      (''points'', JNum 5)])]\<rparr>
   \<and> snd (addPoints (fst (addPoints alice_store (Some 1) (Some 5))) (Some 1) (Some (- 2))) =
       \<lparr>status = 200,
        body = JObj [(''success'', JBool True),
                     (''user'', JObj [(''id'', JNum 1), (''username'', JStr ''alice''),
                                      (''points'', JNum 3)])]\<rparr>
   \<and> getUser (fst (addPoints (fst (addPoints alice_store (Some 1) (Some 5))) (Some 1)
                     (Some (- 2)))) 1 =
       \<lparr>status = 200,
        body = JObj [(''success'', JBool True),
                     (''user'', JObj [(''id'', JNum 1), (''email'', JStr ''a@x.com''),
                                      (''username'', JStr ''alice''), (''points'', JNum 3)])]\<rparr>"
proof -
  let ?r = "\<lparr>user_id = 1, email = ''a@x.com'', username = ''alice'',
             password = ''s1secret'', points = Some (0 :: int4)\<rparr>"
  have h2: "?r \<in> set (users alice_store)"
    by (simp add: alice_store_def)
  have h3: "points ?r = Some 0"
    by simp
  have h4: "int4_range 5" and h5: "int4_range (- 2)" and h6: "int4_range (5 + - 2)"
    by (simp_all add: int4_range_def)
  show ?thesis
    using store_inv_alice h4 h5 h6 addPoints_twice [OF store_inv_alice h2 h3 h4 h5 h6]
    by simp
qed

text \<open>
  C4 as stated fails where the sum leaves the column's range: from points 0, the
  deltas 2147483647 and 1 are both 32-bit integers; the first call answers 200, the
  second raises in the store and is answered 500, and the row keeps 2147483647, not
  2147483648.
\<close>

theorem addPoints_twice_overflow:
  "snd (addPoints alice_store (Some 1) (Some 2147483647)) =
       \<lparr>status = 200,
        body = JObj [(''success'', JBool True),
                     (''user'', JObj [(''id'', JNum 1), (''username'', JStr ''alice''),
                                      (''points'', JNum 2147483647)])]\<rparr>
   \<and> snd (addPoints (fst (addPoints alice_store (Some 1) (Some 2147483647))) (Some 1) (Some 1)) =
       \<lparr>status = 500,
        body = JObj [(''success'', JBool False), (''message'', JStr ''integer out of range'')]\<rparr>
   \<and> map points (users (fst (addPoints (fst (addPoints alice_store (Some 1) (Some 2147483647)))
                                 (Some 1) (Some 1)))) = [Some 2147483647]
   \<and> int4_range 2147483647 \<and> int4_range 1 \<and> (2147483647 :: int) + 1 = 2147483648"
  by (simp add: addPoints_def update_points_def bind_integer_def int4_range_def alice_store_def
      int4pl_def json_response_def success_user_Some failure_eq first_row_def
      id_username_points_def json_int4_def)

text \<open>
  C5 (as amended). When no row has the id of the request (or the request carries
  none), \<open>addPoints\<close> returns the store exactly as it was; and when the id and the
  delta are absent or lie in the 32-bit range of their \<open>INTEGER\<close> parameters, it
  answers 404 with the failure body.
\<close>

theorem addPoints_unknown_id:
  assumes "userId \<notin> set (map (\<lambda>r. Some (user_id r)) (users s))"
  shows "fst (addPoints s userId pts) = s
       \<and> (accepted_integer userId \<and> accepted_integer pts \<longrightarrow>
            snd (addPoints s userId pts) =
              \<lparr>status = 404,
               body = JObj [(''success'', JBool False),
                            (''message'', JStr user_not_found_message)]\<rparr>)"
  using addPoints_miss_store [OF assms] addPoints_miss [OF assms]
  by (simp add: json_response_def failure_eq)

theorem addPoints_unknown_id_witness:
  "Some 7 \<notin> set (map (\<lambda>r. Some (user_id r)) (users alice_store))
   \<and> accepted_integer (Some 7) \<and> accepted_integer (Some 5)
   \<and> addPoints alice_store (Some 7) (Some 5) =
       (alice_store, \<lparr>status = 404,
                      body = JObj [(''success'', JBool False),
                                   (''message'', JStr user_not_found_message)]\<rparr>)"
proof -
  have h: "Some 7 \<notin> set (map (\<lambda>r. Some (user_id r)) (users alice_store))"
    by (simp add: alice_store_def)
  have a: "accepted_integer (Some 7)" "accepted_integer (Some 5)"
    by (simp_all add: accepted_integer_def int4_range_def)
  show ?thesis
    using h a addPoints_unknown_id [OF h, of "Some 5"]
    by (simp add: prod_eq_iff)
qed

text \<open>
  C5 as stated fails outside the 32-bit range: no row has the id 2147483648, yet the
  store refuses the parameter and the handler answers 500, not 404; so it does for an
  unknown id with the delta 2147483648. The store is unchanged in both cases.
\<close>

theorem addPoints_unknown_id_out_of_range:
  "Some 2147483648 \<notin> set (map (\<lambda>r. Some (user_id r)) (users alice_store))
   \<and> addPoints alice_store (Some 2147483648) (Some 1) =
       (alice_store,
        \<lparr>status = 500,
         body = JObj [(''success'', JBool False),
                      (''message'',
                       JStr ''value \"2147483648\" is out of range for type integer'')]\<rparr>)
   \<and> Some 7 \<notin> set (map (\<lambda>r. Some (user_id r)) (users alice_store))
   \<and> addPoints alice_store (Some 7) (Some 2147483648) =
       (alice_store,
        \<lparr>status = 500,
         body = JObj [(''success'', JBool False),
                      (''message'',
                       JStr ''value \"2147483648\" is out of range for type integer'')]\<rparr>)"
  by (simp add: addPoints_def update_points_def bind_integer_def int4_range_def alice_store_def
      json_response_def failure_eq decimal_def decimal_nat_digit decimal_nat_more)

subsection \<open>The stored hash stays in the store\<close>

lemma all_columns_has_password: "has_field ''password'' (JObj (all_columns r))"
  by (simp add: all_columns_def)

lemma has_field_success_user_4:
  "\<not> has_field ''password'' (success_user (first_row (map id_email_username_points xs)))"
  by (cases xs) (simp_all add: first_row_def success_user_None success_user_Some
      id_email_username_points_def has_field_json_int4)

lemma has_field_success_user_3:
  "\<not> has_field ''password'' (success_user (first_row (map id_username_points xs)))"
  by (cases xs) (simp_all add: first_row_def success_user_None success_user_Some
      id_username_points_def has_field_json_int4)

lemma insert_user_rows:
  "snd (insert_user s e u p) = Inr rows \<Longrightarrow> \<exists>xs. rows = map id_email_username_points xs"
  by (auto simp: insert_user_def split: sum.splits if_splits intro: exI [of _ "[x]" for x])

lemma no_password_register: "\<not> has_field ''password'' (body (snd (register bc salt s e u p)))"
proof (cases "bcrypt_hash bc salt p 10")
  case (Inl err)
  then show ?thesis by (simp add: register_def json_response_def has_field_failure)
next
  case (Inr h)
  show ?thesis
  proof (cases "insert_user s e u (Some h)")
    case (Pair s' res)
    show ?thesis
    proof (cases res)
      case (Inl err)
      with Pair Inr show ?thesis
        by (simp add: register_def json_response_def has_field_failure)
    next
      case rows: (Inr rows)
      with Pair insert_user_rows [of s e u "Some h" rows]
      obtain xs where "rows = map id_email_username_points xs"
        by auto
      with Pair Inr rows show ?thesis
        by (simp add: register_def json_response_def has_field_success_user_4)
    qed
  qed
qed

lemma no_password_addPoints: "\<not> has_field ''password'' (body (snd (addPoints s i d)))"
proof (cases "update_points s d i")
  case (Pair s' res)
  show ?thesis
  proof (cases res)
    case (Inl err)
    with Pair show ?thesis by (simp add: addPoints_def json_response_def has_field_failure)
  next
    case (Inr rows)
    with Pair have "\<exists>ys. rows = map id_username_points ys"
      by (auto simp: update_points_def split: option.splits sum.splits)
    then obtain ys where "rows = map id_username_points ys" ..
    with Pair Inr show ?thesis
      by (simp add: addPoints_def has_field_failure json_response_def has_field_success_user_3)
  qed
qed

lemma no_password_getUser: "\<not> has_field ''password'' (body (getUser s i))"
proof (cases "select_by_id s i")
  case (Inl err)
  then show ?thesis by (simp add: getUser_def json_response_def has_field_failure)
next
  case (Inr rows)
  then have "\<exists>ys. rows = map id_email_username_points ys"
    by (auto simp: select_by_id_def split: option.splits sum.splits)
  then obtain ys where "rows = map id_email_username_points ys" ..
  with Inr show ?thesis
    by (simp add: getUser_def has_field_failure json_response_def has_field_success_user_4)
qed

text \<open>
  C6. For every store and every request, the body of the response of \<open>register\<close>,
  \<open>login\<close>, \<open>addPoints\<close> and \<open>getUser\<close> has no property named \<open>password\<close>
  (the column that holds the hash) at any depth, although the row \<open>login\<close> selects
  does carry it.
\<close>

theorem no_password_in_any_response:
  "\<not> has_field ''password'' (body (snd (register bc salt s e u p)))
   \<and> \<not> has_field ''password'' (body (login bc s un pw))
   \<and> \<not> has_field ''password'' (body (snd (addPoints s userId pts)))
   \<and> \<not> has_field ''password'' (body (getUser s i))"
  using no_password_register no_password_login no_password_addPoints no_password_getUser
  by blast

theorem no_password_in_any_response_witness:
  "\<not> has_field ''password''
       (body (snd (register example_bcrypt ''s2'' alice_store
                     (Some ''b@x.com'') (Some ''bob'') (Some ''pw''))))
   \<and> \<not> has_field ''password''
         (body (login example_bcrypt alice_store (Some ''alice'') (Some ''secret'')))
   \<and> \<not> has_field ''password'' (body (snd (addPoints alice_store (Some 1) (Some 5))))
   \<and> \<not> has_field ''password'' (body (getUser alice_store 1))"
  by (rule no_password_in_any_response)

subsection \<open>Registrations the store rejects\<close>

lemma varchar_Some_None: "varchar n ty v = Inr (Some x) \<Longrightarrow> v \<noteq> None"
  by (cases v) (simp_all add: varchar_None)

lemma insert_values_Inr:
  assumes "insert_values e u p = Inr v"
  shows "accepted_text e" "accepted_text u" "accepted_text p"
    and "varchar 255 ''character varying(255)'' e = Inr (fst v)"
    and "varchar 100 ''character varying(100)'' u = Inr (fst (snd v))"
    and "varchar 255 ''character varying(255)'' p = Inr (snd (snd v))"
  using assms
  by (auto simp: insert_values_def split: sum.splits dest: bind_text_Inr)

lemma new_row_Inr:
  assumes "new_row s e' u' p' = Inr r"
  shows "e' = Some (email r)" and "u' = Some (username r)" and "p' = Some (password r)"
    and "user_id r = users_id_seq s"
    and "email r \<notin> set (map email (users s))"
    and "username r \<notin> set (map username (users s))"
  using assms
  by (auto simp: new_row_def split: option.splits if_splits)

lemma insert_user_keeps_rows:
  assumes "store_inv s"
    and "e \<in> set (map (\<lambda>r. Some (email r)) (users s))
         \<or> u \<in> set (map (\<lambda>r. Some (username r)) (users s))
         \<or> e = None \<or> u = None \<or> p = None"
  shows "\<exists>s' err. insert_user s e u p = (s', Inl err) \<and> users s' = users s"
proof (cases "insert_values e u p")
  case (Inl err)
  then show ?thesis by (simp add: insert_user_def)
next
  case (Inr v)
  note vals = insert_values_Inr [OF Inr]
  show ?thesis
  proof (cases "new_row s (fst v) (fst (snd v)) (snd (snd v))")
    case (Inl err)
    with Inr show ?thesis by (simp add: insert_user_def)
  next
    case row: (Inr r)
    note ok = new_row_Inr [OF row]
    from vals(4,5,6) ok(1,2,3) have present: "e \<noteq> None" "u \<noteq> None" "p \<noteq> None"
      by (auto dest: varchar_Some_None)
    have "e \<notin> set (map (\<lambda>r. Some (email r)) (users s))"
    proof
      assume "e \<in> set (map (\<lambda>r. Some (email r)) (users s))"
      then obtain r0 where r0: "r0 \<in> set (users s)" "e = Some (email r0)"
        by auto
      from store_inv_row [OF assms(1) r0(1)]
      have "varchar 255 ''character varying(255)'' e = Inr (Some (email r0))"
        by (simp add: r0(2) varchar_fits fits_def)
      with vals(4) ok(1) have "email r = email r0" by simp
      with r0(1) ok(5) show False by auto
    qed
    moreover have "u \<notin> set (map (\<lambda>r. Some (username r)) (users s))"
    proof
      assume "u \<in> set (map (\<lambda>r. Some (username r)) (users s))"
      then obtain r0 where r0: "r0 \<in> set (users s)" "u = Some (username r0)"
        by auto
      from store_inv_row [OF assms(1) r0(1)]
      have "varchar 100 ''character varying(100)'' u = Inr (Some (username r0))"
        by (simp add: r0(2) varchar_fits fits_def)
      with vals(5) ok(2) have "username r = username r0" by simp
      with r0(1) ok(6) show False by auto
    qed
    ultimately show ?thesis
      using assms(2) present by blast
  qed
qed

text \<open>
  C7. In a store that satisfies the table's constraints, a registration whose email
  some row carries, or whose username some row carries, or that lacks its email, its
  username or its password, is answered 400 with a failure body, and the table has
  the same rows afterwards.
\<close>

theorem register_rejects:
  assumes "store_inv s"
    and "e \<in> set (map (\<lambda>r. Some (email r)) (users s))
         \<or> u \<in> set (map (\<lambda>r. Some (username r)) (users s))
         \<or> e = None \<or> u = None \<or> p = None"
  shows "status (snd (register bc salt s e u p)) = 400
       \<and> (\<exists>m. body (snd (register bc salt s e u p)) =
                 JObj [(''success'', JBool False), (''message'', JStr m)])
       \<and> users (fst (register bc salt s e u p)) = users s"
proof (cases p)
  case None
  then show ?thesis
    by (simp add: register_def bcrypt_hash_def json_response_def failure_eq)
next
  case (Some d)
  with assms(2) have "e \<in> set (map (\<lambda>r. Some (email r)) (users s))
         \<or> u \<in> set (map (\<lambda>r. Some (username r)) (users s))
         \<or> e = None \<or> u = None"
    by simp
  then have "\<exists>s' err. insert_user s e u (Some (kdf bc 10 salt d)) = (s', Inl err) \<and>
               users s' = users s"
    by (intro insert_user_keeps_rows [OF assms(1)]) blast
  then obtain s' err where "insert_user s e u (Some (kdf bc 10 salt d)) = (s', Inl err)"
    "users s' = users s"
    by blast
  with Some show ?thesis
    by (simp add: register_def bcrypt_hash_def json_response_def failure_eq)
qed

theorem register_rejects_witness:
  "store_inv alice_store
   \<and> Some ''a@x.com'' \<in> set (map (\<lambda>r. Some (email r)) (users alice_store))
   \<and> status (snd (register example_bcrypt ''s2'' alice_store
                     (Some ''a@x.com'') (Some ''bob'') (Some ''pw''))) = 400
   \<and> users (fst (register example_bcrypt ''s2'' alice_store
                    (Some ''a@x.com'') (Some ''bob'') (Some ''pw''))) = users alice_store
   \<and> Some ''alice'' \<in> set (map (\<lambda>r. Some (username r)) (users alice_store))
   \<and> status (snd (register example_bcrypt ''s2'' alice_store
                     (Some ''b@x.com'') (Some ''alice'') (Some ''pw''))) = 400
   \<and> users (fst (register example_bcrypt ''s2'' alice_store
                    (Some ''b@x.com'') (Some ''alice'') (Some ''pw''))) = users alice_store
   \<and> status (snd (register example_bcrypt ''s2'' alice_store
                     (Some ''b@x.com'') (Some ''bob'') None)) = 400
   \<and> users (fst (register example_bcrypt ''s2'' alice_store
                    (Some ''b@x.com'') (Some ''bob'') None)) = users alice_store"
proof -
  have h1: "Some ''a@x.com'' \<in> set (map (\<lambda>r. Some (email r)) (users alice_store))"
    by (simp add: alice_store_def)
  have h2: "Some ''alice'' \<in> set (map (\<lambda>r. Some (username r)) (users alice_store))"
    by (simp add: alice_store_def)
  show ?thesis
    using store_inv_alice h1 h2
      register_rejects [OF store_inv_alice, of "Some ''a@x.com''" "Some ''bob''" "Some ''pw''" example_bcrypt "''s2''"]
      register_rejects [OF store_inv_alice, of "Some ''b@x.com''" "Some ''alice''" "Some ''pw''" example_bcrypt "''s2''"]
      register_rejects [OF store_inv_alice, of "Some ''b@x.com''" "Some ''bob''" None example_bcrypt "''s2''"]
    by simp
qed

subsection \<open>The handlers keep the table's constraints\<close>

text \<open>
  \<open>store_inv\<close> holds of the empty table (\<open>store_inv_empty\<close>) and is kept by the two
  handlers that write, whatever the request: it holds of every state the service
  reaches.
\<close>

lemma pg_char_length_append: "pg_char_length (a @ b) = pg_char_length a + pg_char_length b"
  by (simp add: pg_char_length_def)

lemma pg_char_length_spaces:
  "list_all (\<lambda>c. c = CHR '' '') b \<Longrightarrow> pg_char_length b = length b"
  by (induction b) (simp_all add: pg_char_length_def)

lemma pg_char_length_le: "pg_char_length t \<le> length t"
  by (simp add: pg_char_length_def)

lemma varchar_bound:
  assumes "varchar n ty v = Inr (Some x)"
  shows "pg_char_length x \<le> n"
proof (cases v)
  case None
  with assms show ?thesis by (simp add: varchar_None)
next
  case (Some t)
  let ?k = "pg_char_length t - n"
  show ?thesis
  proof (cases "?k = 0")
    case True
    with assms Some show ?thesis by (simp add: varchar_def)
  next
    case False
    with assms Some have sp: "list_all (\<lambda>c. c = CHR '' '') (drop (length t - ?k) t)"
      and x: "x = take (length t - ?k) t"
      by (auto simp: varchar_def Let_def split: if_splits)
    have "?k \<le> length t"
      using pg_char_length_le [of t] by simp
    then have len: "length (drop (length t - ?k) t) = ?k"
      by simp
    have "pg_char_length t = pg_char_length (take (length t - ?k) t @ drop (length t - ?k) t)"
      by simp
    also have "\<dots> = pg_char_length x + ?k"
      unfolding pg_char_length_append using pg_char_length_spaces [OF sp] len x by simp
    finally show ?thesis by simp
  qed
qed

lemma varchar_keeps_text:
  assumes "varchar n ty v = Inr (Some x)" "accepted_text v"
  shows "CHR 0x00 \<notin> set x"
proof (cases v)
  case None
  with assms show ?thesis by (simp add: varchar_None)
next
  case (Some t)
  with assms(2) have t: "CHR 0x00 \<notin> set t"
    by (simp add: accepted_text_def)
  from assms(1) Some have "x = t \<or> x = take (length t - (pg_char_length t - n)) t"
    by (auto simp: varchar_def Let_def split: if_splits)
  with t show ?thesis
    by (auto dest: in_set_takeD)
qed

lemma varchar_stored:
  "varchar n ty v = Inr (Some x) \<Longrightarrow> accepted_text v \<Longrightarrow> fits n x"
  by (simp add: fits_def varchar_bound varchar_keeps_text)

lemma store_inv_insert_user: "store_inv s \<Longrightarrow> store_inv (fst (insert_user s e u p))"
proof (cases "insert_values e u p")
  case (Inl err)
  assume "store_inv s"
  with Inl show ?thesis by (simp add: insert_user_def)
next
  case (Inr v)
  assume inv: "store_inv s"
  note vals = insert_values_Inr [OF Inr]
  show ?thesis
  proof (cases "2147483647 < users_id_seq s")
    case True
    with Inr inv show ?thesis by (simp add: insert_user_def)
  next
    case seq: False
    show ?thesis
    proof (cases "new_row s (fst v) (fst (snd v)) (snd (snd v))")
      case (Inl err)
      with Inr seq inv show ?thesis
        by (auto simp: insert_user_def store_inv_def list_all_iff)
    next
      case row: (Inr r)
      note ok = new_row_Inr [OF row]
      have fit: "fits 255 (email r)" "fits 100 (username r)" "fits 255 (password r)"
        using vals ok(1,2,3) by (auto intro: varchar_stored)
      from inv ok(4,5,6) fit seq store_inv_seq_fresh [OF inv] Inr row show ?thesis
        by (auto simp: insert_user_def store_inv_def list_all_iff)
    qed
  qed
qed

lemma store_inv_register: "store_inv s \<Longrightarrow> store_inv (fst (register bc salt s e u p))"
proof (cases "bcrypt_hash bc salt p 10")
  case (Inl err)
  assume "store_inv s"
  with Inl show ?thesis by (simp add: register_def)
next
  case (Inr h)
  assume "store_inv s"
  then have "store_inv (fst (insert_user s e u (Some h)))"
    by (rule store_inv_insert_user)
  with Inr show ?thesis
    by (cases "insert_user s e u (Some h)") (auto simp: register_def split: sum.split)
qed

lemma set_points_Inr:
  "set_points xs d i = Inr tu \<Longrightarrow>
   map user_id (fst tu) = map user_id xs \<and> map email (fst tu) = map email xs \<and>
   map username (fst tu) = map username xs \<and> map password (fst tu) = map password xs"
  by (induction xs arbitrary: tu) (auto split: if_splits sum.splits)

lemma store_inv_addPoints: "store_inv s \<Longrightarrow> store_inv (fst (addPoints s i d))"
proof (cases "update_points s d i")
  case (Pair s' res)
  assume inv: "store_inv s"
  have "store_inv s'"
  proof (cases "s' = s")
    case True
    with inv show ?thesis by simp
  next
    case False
    with Pair obtain d' n tu where "set_points (users s) d' n = Inr tu" "s' = s\<lparr>users := fst tu\<rparr>"
      by (auto simp: update_points_def split: sum.splits option.splits)
    with set_points_Inr [of "users s" d' n tu] inv show ?thesis
      by (simp add: store_inv_columns)
  qed
  with Pair show ?thesis
    by (cases res) (simp_all add: addPoints_def)
qed

end
